theory Spec2Isabelle
  imports Main
begin

section \<open>pytableformat: plain text columns and tables from format strings\<close>

text \<open>
  A shallow embedding of \<^verbatim>\<open>pytableformat/pytableformat.py\<close>. Python \<^verbatim>\<open>str\<close> values are
  modelled as \<^typ>\<open>string\<close>, so the characters are those with a code point below 256, and
  \<^term>\<open>length\<close> is Python's \<^verbatim>\<open>len\<close>. Every \<^verbatim>\<open>raise\<close> is a value \<open>Inl e\<close> of the sum type
  \<open>error + 'a\<close>; an object whose attributes a method assigns is passed in and returned.
\<close>

subsection \<open>Errors\<close>

text \<open>
  Every exception the module raises itself is a \<^verbatim>\<open>ValueError\<close>; the constructors tell the
  places apart. \<open>HostError\<close> is whatever \<^verbatim>\<open>str.format\<close> raises.
\<close>

datatype host_exn = PyValueError | PyKeyError | PyIndexError | Unmodelled

datatype error =
    InvalidFormatString     \<comment> \<open>\<^verbatim>\<open>ValueError("Invalid format string: ...")\<close> in \<^verbatim>\<open>Format.__init__\<close>\<close>
  | InvalidColumnFormat     \<comment> \<open>\<^verbatim>\<open>ValueError("Invalid column format ...")\<close> in \<^verbatim>\<open>Column.__init__\<close>\<close>
  | UnpackError             \<comment> \<open>\<^verbatim>\<open>ValueError\<close> of unpacking \<^verbatim>\<open>hrule_format\<close> into three names\<close>
  | HeadersLengthMismatch   \<comment> \<open>\<^verbatim>\<open>ValueError("Columns and headers length mismatch...")\<close>\<close>
  | MaxEmptySequence        \<comment> \<open>\<^verbatim>\<open>ValueError\<close> of \<^verbatim>\<open>max()\<close> over an empty iterable\<close>
  | ZipStrictMismatch       \<comment> \<open>\<^verbatim>\<open>ValueError\<close> of \<^verbatim>\<open>zip(..., strict=True)\<close>\<close>
  | HostError host_exn

subsection \<open>Character classes of the two regular expressions\<close>

definition newline :: char where
  "newline = CHR 0x0A"

definition is_align :: "char \<Rightarrow> bool" where
  \<comment> \<open>\<^verbatim>\<open>[<>=^]\<close>\<close>
  "is_align c \<longleftrightarrow> c \<in> set ''<>=^''"

definition is_sign :: "char \<Rightarrow> bool" where
  \<comment> \<open>\<^verbatim>\<open>[\+\- ]\<close>\<close>
  "is_sign c \<longleftrightarrow> c \<in> set ''+- ''"

definition is_digit :: "char \<Rightarrow> bool" where
  \<comment> \<open>\<^verbatim>\<open>\d\<close>: below code point 256 the decimal digits are \<^verbatim>\<open>0\<close> to \<^verbatim>\<open>9\<close>\<close>
  "is_digit c \<longleftrightarrow> c \<in> set ''0123456789''"

definition is_grouping :: "char \<Rightarrow> bool" where
  \<comment> \<open>\<^verbatim>\<open>[,_]\<close>\<close>
  "is_grouping c \<longleftrightarrow> c \<in> set '',_''"

definition is_type :: "char \<Rightarrow> bool" where
  \<comment> \<open>\<^verbatim>\<open>[bcdeEfFgGnosxX%]\<close>\<close>
  "is_type c \<longleftrightarrow> c \<in> set ''bcdeEfFgGnosxX%''"

definition is_space :: "char \<Rightarrow> bool" where
  \<comment> \<open>\<^verbatim>\<open>\s\<close> on \<^verbatim>\<open>str\<close> patterns: the white space below code point 256, that is
      \<^verbatim>\<open>\t \n \v \f \r\<close>, \<^verbatim>\<open>\x1c\<close> to \<^verbatim>\<open>\x1f\<close>, the space, \<^verbatim>\<open>\x85\<close> and \<^verbatim>\<open>\xa0\<close>\<close>
  "is_space c \<longleftrightarrow>
     (let n = of_char c :: nat
      in (9 \<le> n \<and> n \<le> 13) \<or> (28 \<le> n \<and> n \<le> 32) \<or> n = 133 \<or> n = 160)"

subsection \<open>Format: the format specification mini-language\<close>

record Format =
  fill :: string
  align :: string
  sign :: string
  z :: string
  alt :: string
  zero :: string
  width :: string
  grouping_option :: string
  precision :: string
  type :: string

text \<open>
  \<^verbatim>\<open>Format.pattern\<close> is a sequence of groups that can each match the empty string, so
  \<^verbatim>\<open>pattern.match\<close> never fails and never backtracks out of a group: each group takes what
  its greedy first choice takes, and the rest of the pattern runs on what is left. The
  functions below return what a group captured and the input left after it.
\<close>

definition match_fill_align :: "string \<Rightarrow> string \<times> string \<times> string" where
  \<comment> \<open>\<^verbatim>\<open>((?P<fill>.?)(?P<align>[<>=^]))?\<close>: \<^verbatim>\<open>.?\<close> first tries one character that is not a
      newline, then none; a group that did not take part is \<^verbatim>\<open>None\<close>, read as \<^verbatim>\<open>""\<close>\<close>
  "match_fill_align s =
     (case s of
        c1 # c2 # cs \<Rightarrow>
          if c1 \<noteq> newline \<and> is_align c2 then ([c1], [c2], cs)
          else if is_align c1 then ([], [c1], c2 # cs)
          else ([], [], s)
      | [c1] \<Rightarrow> if is_align c1 then ([], [c1], []) else ([], [], s)
      | [] \<Rightarrow> ([], [], s))"

definition match_opt :: "(char \<Rightarrow> bool) \<Rightarrow> string \<Rightarrow> string \<times> string" where
  \<comment> \<open>\<^verbatim>\<open>[...]?\<close>: one character of the class if the input starts with one\<close>
  "match_opt p s =
     (case s of
        c # cs \<Rightarrow> if p c then ([c], cs) else ([], s)
      | [] \<Rightarrow> ([], s))"

definition match_digits :: "string \<Rightarrow> string \<times> string" where
  \<comment> \<open>\<^verbatim>\<open>(\d+)?\<close>: the longest run of digits\<close>
  "match_digits s = (takeWhile is_digit s, dropWhile is_digit s)"

definition match_precision :: "string \<Rightarrow> string \<times> string" where
  \<comment> \<open>\<^verbatim>\<open>(\.(?P<precision>\d+))?\<close>: a dot and at least one digit, or nothing at all\<close>
  "match_precision s =
     (case s of
        c # cs \<Rightarrow>
          if c = CHR ''.'' \<and> takeWhile is_digit cs \<noteq> []
          then (takeWhile is_digit cs, dropWhile is_digit cs)
          else ([], s)
      | [] \<Rightarrow> ([], s))"

definition Format_init :: "string \<Rightarrow> error + Format" where
  \<comment> \<open>\<^verbatim>\<open>Format.__init__\<close>; the branch \<^verbatim>\<open>if not match\<close> is never taken\<close>
  "Format_init format =
     (let (fill_g, align_g, s1) = match_fill_align format;
          (sign_g, s2) = match_opt is_sign s1;
          (z_g, s3) = match_opt (\<lambda>c. c = CHR ''z'') s2;
          (alt_g, s4) = match_opt (\<lambda>c. c = CHR ''#'') s3;
          (zero_g, s5) = match_opt (\<lambda>c. c = CHR ''0'') s4;
          (width_g, s6) = match_digits s5;
          (grouping_g, s7) = match_opt is_grouping s6;
          (precision_g, s8) = match_precision s7;
          (type_g, s9) = match_opt is_type s8
      in if s9 \<noteq> [] then Inl InvalidFormatString
         else Inr \<lparr>fill = fill_g, align = align_g, sign = sign_g, z = z_g, alt = alt_g,
                   zero = zero_g, width = width_g, grouping_option = grouping_g,
                   precision = precision_g, type = type_g\<rparr>)"

definition Format_spec :: "Format \<Rightarrow> string" where
  \<comment> \<open>what \<^verbatim>\<open>Format.__str__\<close> puts between \<^verbatim>\<open>{:\<close> and \<^verbatim>\<open>}\<close>\<close>
  "Format_spec f =
     fill f @ align f @ sign f @ z f @ alt f @ zero f @ width f @ grouping_option f
       @ (if precision f = [] then [] else CHR ''.'' # precision f) @ type f"

definition Format_str :: "Format \<Rightarrow> string" where
  \<comment> \<open>\<^verbatim>\<open>Format.__str__\<close>: the specification as a replacement field\<close>
  "Format_str f = ''{:'' @ Format_spec f @ ''}''"

subsection \<open>The host's formatting primitive\<close>

text \<open>
  \<^verbatim>\<open>Format.format\<close> and \<^verbatim>\<open>Column.format\<close> render every value with Python's own
  \<^verbatim>\<open>str.format\<close>, which is not code of this module: it is a parameter of the model.
  \<open>str_format H template v\<close> stands for \<^verbatim>\<open>template.format(v)\<close>, and \<open>str_value H s\<close> for
  the Python \<^verbatim>\<open>str\<close> object \<open>s\<close> as a value that can be formatted.
\<close>

record 'v host =
  str_format :: "string \<Rightarrow> 'v \<Rightarrow> error + string"
  str_value :: "string \<Rightarrow> 'v"

definition Format_format :: "'v host \<Rightarrow> Format \<Rightarrow> 'v \<Rightarrow> error + string" where
  \<comment> \<open>\<^verbatim>\<open>Format.format\<close>\<close>
  "Format_format H f v = str_format H (Format_str f) v"

subsection \<open>HRule\<close>

datatype HRule = NONE | HEADER | FRAME | FRAME_HEADER | ALL_rule

fun HRule_value :: "HRule \<Rightarrow> nat" where
  \<comment> \<open>the values of the \<^verbatim>\<open>IntEnum\<close>; \<open>ALL_rule\<close> is \<^verbatim>\<open>HRule.ALL\<close>\<close>
  "HRule_value NONE = 0"
| "HRule_value HEADER = 1"
| "HRule_value FRAME = 2"
| "HRule_value FRAME_HEADER = 3"
| "HRule_value ALL_rule = 4"

subsection \<open>Column\<close>

record Column =
  left_border :: string
  left_padding :: string
  content_format :: Format
  width :: string
  right_padding :: string
  right_border :: string
  hrule :: HRule
  hrule_left_char :: string
  hrule_char :: string
  hrule_right_char :: string

definition replace_char :: "char \<Rightarrow> string \<Rightarrow> string \<Rightarrow> string" where
  \<comment> \<open>\<^verbatim>\<open>str.replace\<close> of a single character\<close>
  "replace_char c r s = concat (map (\<lambda>x. if x = c then r else [x]) s)"

definition escape_curly :: "string \<Rightarrow> string" where
  "escape_curly s = replace_char (CHR ''}'') ''}}'' (replace_char (CHR ''{'') ''{{'' s)"

text \<open>
  \<^verbatim>\<open>Column.pattern.fullmatch\<close> does backtrack: each function below matches the rest of the
  pattern from one group on, to the end of the input, trying the choices of a greedy group
  in the order the regular expression engine tries them.
\<close>

definition match_tail :: "string \<Rightarrow> (string \<times> string) option" where
  \<comment> \<open>\<^verbatim>\<open>(?P<right_padding>\s*)(?P<right_border>\S?)\<close> and the end of the input\<close>
  "match_tail s =
     (case dropWhile is_space s of
        [] \<Rightarrow> Some (takeWhile is_space s, [])
      | [c] \<Rightarrow> Some (takeWhile is_space s, [c])
      | _ \<Rightarrow> None)"

fun match_content :: "string \<Rightarrow> (string \<times> string \<times> string) option" where
  \<comment> \<open>\<^verbatim>\<open>(?P<content_format>.*)\}\<close> and the tail: \<^verbatim>\<open>.*\<close> takes one more character that is
      not a newline if the rest then matches, and stops before a closing brace otherwise\<close>
  "match_content [] = None"
| "match_content (c # cs) =
     (case (if c = newline then None else match_content cs) of
        Some (content, rp, rb) \<Rightarrow> Some (c # content, rp, rb)
      | None \<Rightarrow>
          if c = CHR ''}'' then map_option (\<lambda>(rp, rb). ([], rp, rb)) (match_tail cs)
          else None)"

definition match_field :: "string \<Rightarrow> (string option \<times> string \<times> string) option" where
  \<comment> \<open>\<^verbatim>\<open>\{(:(?P<content_format>.*))?\}\<close> and the tail: first with the optional group,
      then without it\<close>
  "match_field s =
     (case s of
        [] \<Rightarrow> None
      | c # t \<Rightarrow>
          if c \<noteq> CHR ''{'' then None
          else
            (case (case t of
                     [] \<Rightarrow> None
                   | d # u \<Rightarrow> if d = CHR '':'' then match_content u else None) of
               Some (content, rp, rb) \<Rightarrow> Some (Some content, rp, rb)
             | None \<Rightarrow>
                 (case t of
                    [] \<Rightarrow> None
                  | d # r \<Rightarrow>
                      if d = CHR ''}''
                      then map_option (\<lambda>(rp, rb). (None, rp, rb)) (match_tail r)
                      else None)))"

definition match_padding :: "string \<Rightarrow> (string \<times> string option \<times> string \<times> string) option" where
  \<comment> \<open>\<^verbatim>\<open>(?P<left_padding>\s*)\<close> and the rest: the brace is no white space, so only the
      longest run can be followed by it\<close>
  "match_padding s =
     map_option (\<lambda>(cf, rp, rb). (takeWhile is_space s, cf, rp, rb))
       (match_field (dropWhile is_space s))"

definition Column_fullmatch ::
  "string \<Rightarrow> (string \<times> string \<times> string option \<times> string \<times> string) option" where
  \<comment> \<open>\<^verbatim>\<open>Column.pattern.fullmatch\<close>: \<^verbatim>\<open>(?P<left_border>\S?)\<close> first tries one character,
      then none; the result is (left border, left padding, content format, right padding,
      right border)\<close>
  "Column_fullmatch s =
     (case (case s of
              [] \<Rightarrow> None
            | c # cs \<Rightarrow> if is_space c then None else map_option (Pair [c]) (match_padding cs)) of
        Some g \<Rightarrow> Some g
      | None \<Rightarrow> map_option (Pair []) (match_padding s))"

definition Column_init :: "string \<Rightarrow> HRule \<Rightarrow> string \<Rightarrow> error + Column" where
  \<comment> \<open>\<^verbatim>\<open>Column.__init__\<close>\<close>
  "Column_init format hr hrule_format =
     (case Column_fullmatch format of
        None \<Rightarrow> Inl InvalidColumnFormat
      | Some (lb, lp, cf, rp, rb) \<Rightarrow>
          (case Format_init (case cf of None \<Rightarrow> [] | Some s \<Rightarrow> s) of
             Inl e \<Rightarrow> Inl e
           | Inr f \<Rightarrow>
               (case hrule_format of
                  [a, b, c] \<Rightarrow>
                    Inr \<lparr>left_border = lb, left_padding = lp,
                         content_format = f\<lparr>precision := Format.width f\<rparr>,
                         width = Format.width f,
                         right_padding = rp, right_border = rb, hrule = hr,
                         hrule_left_char = [a], hrule_char = [b], hrule_right_char = [c]\<rparr>
                | _ \<Rightarrow> Inl UnpackError)))"

definition Column_str :: "Column \<Rightarrow> string" where
  \<comment> \<open>\<^verbatim>\<open>Column.__str__\<close>\<close>
  "Column_str self =
     escape_curly (left_border self) @ left_padding self @ Format_str (content_format self)
       @ right_padding self @ escape_curly (right_border self)"

definition total_width :: "'v host \<Rightarrow> Column \<Rightarrow> error + nat" where
  \<comment> \<open>the property \<^verbatim>\<open>Column.total_width\<close>\<close>
  "total_width H self =
     (case Format_format H (content_format self) (str_value H []) of
        Inl e \<Rightarrow> Inl e
      | Inr s \<Rightarrow> Inr (length (left_padding self) + length s + length (right_padding self)))"

fun map_result :: "('a \<Rightarrow> error + 'b) \<Rightarrow> 'a list \<Rightarrow> error + 'b list" where
  \<comment> \<open>a comprehension whose body can raise: the first exception ends it\<close>
  "map_result f [] = Inr []"
| "map_result f (x # xs) =
     (case f x of
        Inl e \<Rightarrow> Inl e
      | Inr y \<Rightarrow> (case map_result f xs of Inl e \<Rightarrow> Inl e | Inr ys \<Rightarrow> Inr (y # ys)))"

definition digit_char :: "nat \<Rightarrow> char" where
  \<comment> \<open>the character of a decimal digit\<close>
  "digit_char d = char_of (48 + d)"

fun str_nat :: "nat \<Rightarrow> string" where
  \<comment> \<open>\<^verbatim>\<open>str\<close> of a non-negative \<^verbatim>\<open>int\<close>\<close>
  "str_nat n = (if n < 10 then [digit_char n] else str_nat (n div 10) @ [digit_char (n mod 10)])"

definition max_list :: "nat list \<Rightarrow> error + nat" where
  \<comment> \<open>\<^verbatim>\<open>max\<close> of an iterable\<close>
  "max_list ns = (case ns of [] \<Rightarrow> Inl MaxEmptySequence | n # ms \<Rightarrow> Inr (fold max ms n))"

definition content_width :: "'v host \<Rightarrow> Column \<Rightarrow> 'v list \<Rightarrow> error + string" where
  \<comment> \<open>\<^verbatim>\<open>self.width or str(max(len(self.content_format.format(c)) for c in column))\<close>\<close>
  "content_width H self column =
     (if width self \<noteq> [] then Inr (width self)
      else
        (case map_result (Format_format H (content_format self)) column of
           Inl e \<Rightarrow> Inl e
         | Inr rs \<Rightarrow>
             (case max_list (map length rs) of
                Inl e \<Rightarrow> Inl e
              | Inr n \<Rightarrow> Inr (str_nat n))))"

definition hrule_line :: "'v host \<Rightarrow> Column \<Rightarrow> error + string" where
  \<comment> \<open>the local \<^verbatim>\<open>hrule\<close> of \<^verbatim>\<open>Column.format\<close>; \<^verbatim>\<open>s * bool(b)\<close> is \<^verbatim>\<open>s\<close> or \<^verbatim>\<open>""\<close>\<close>
  "hrule_line H self =
     (case total_width H self of
        Inl e \<Rightarrow> Inl e
      | Inr n \<Rightarrow>
          Inr ((if left_border self \<noteq> [] then hrule_left_char self else [])
               @ concat (replicate n (hrule_char self))
               @ (if right_border self \<noteq> [] then hrule_right_char self else [])))"

fun column_loop ::
  "'v host \<Rightarrow> string \<Rightarrow> string \<Rightarrow> HRule \<Rightarrow> 'v list \<Rightarrow> string list \<Rightarrow> error + string list" where
  \<comment> \<open>the \<^verbatim>\<open>for col in column\<close> loop of \<^verbatim>\<open>Column.format\<close>, on the list \<^verbatim>\<open>output\<close>\<close>
  "column_loop H format hr p [] output = Inr output"
| "column_loop H format hr p (col # column) output =
     (case str_format H format col of
        Inl e \<Rightarrow> Inl e
      | Inr line \<Rightarrow>
          column_loop H format hr p column
            (if p = ALL_rule then output @ [line] @ [hr] else output @ [line]))"

definition list_insert :: "nat \<Rightarrow> 'a \<Rightarrow> 'a list \<Rightarrow> 'a list" where
  \<comment> \<open>\<^verbatim>\<open>list.insert\<close> at an index that is not negative: beyond the end it appends\<close>
  "list_insert i x xs = take i xs @ x # drop i xs"

definition Column_format :: "'v host \<Rightarrow> Column \<Rightarrow> 'v list \<Rightarrow> (error + string list) \<times> Column" where
  \<comment> \<open>\<^verbatim>\<open>Column.format\<close>: the lines or the exception, and the column as the call leaves it\<close>
  "Column_format H self column =
     (case content_width H self column of
        Inl e \<Rightarrow> (Inl e, self)
      | Inr w \<Rightarrow>
          (let self1 = self\<lparr>content_format := (content_format self)\<lparr>Format.width := w\<rparr>\<rparr>;
               format = Column_str self1
           in case hrule_line H self1 of
                Inl e \<Rightarrow> (Inl e, self1)
              | Inr hr \<Rightarrow>
                  (case column_loop H format hr (hrule self1) column
                          (if HRule_value (hrule self1) \<ge> HRule_value FRAME then [hr] else []) of
                     Inl e \<Rightarrow> (Inl e, self1)
                   | Inr output \<Rightarrow>
                       (let output1 =
                              (if hrule self1 = HEADER then list_insert 1 hr output
                               else if hrule self1 = FRAME_HEADER \<and> length column > 1
                               then list_insert 2 hr output
                               else output);
                            output2 =
                              (if hrule self1 = FRAME \<or> hrule self1 = FRAME_HEADER
                               then output1 @ [hr] else output1)
                        in (Inr output2, self1)))))"

subsection \<open>Table\<close>

record 'v Table =
  headers :: "'v list"
  columns :: "Column list"

definition Table_init ::
  "string list \<Rightarrow> 'v list option \<Rightarrow> HRule \<Rightarrow> string \<Rightarrow> error + 'v Table" where
  \<comment> \<open>\<^verbatim>\<open>Table.__init__\<close>; \<^verbatim>\<open>None\<close> and the empty list are both false\<close>
  "Table_init column_formats hdrs hr hrule_format =
     (if (case hdrs of None \<Rightarrow> False
          | Some hs \<Rightarrow> hs \<noteq> [] \<and> length column_formats \<noteq> length hs)
      then Inl HeadersLengthMismatch
      else
        (case map_result (\<lambda>format. Column_init format hr hrule_format) column_formats of
           Inl e \<Rightarrow> Inl e
         | Inr cs \<Rightarrow> Inr \<lparr>headers = (case hdrs of None \<Rightarrow> [] | Some hs \<Rightarrow> hs), columns = cs\<rparr>))"

fun format_columns ::
  "'v host \<Rightarrow> Column list \<Rightarrow> 'v list list \<Rightarrow> (error + string list list) \<times> Column list" where
  \<comment> \<open>\<^verbatim>\<open>column.format(content) for column, content in zip(self.columns, columns)\<close>, with the
      columns as the calls leave them\<close>
  "format_columns H (c # cs) (content # contents) =
     (case Column_format H c content of
        (Inl e, c') \<Rightarrow> (Inl e, c' # cs)
      | (Inr ls, c') \<Rightarrow>
          (case format_columns H cs contents of
             (Inl e, cs') \<Rightarrow> (Inl e, c' # cs')
           | (Inr rest, cs') \<Rightarrow> (Inr (ls # rest), c' # cs')))"
| "format_columns H cs [] = (Inr [], cs)"
| "format_columns H [] contents = (Inr [], [])"

function zip_strict :: "'a list list \<Rightarrow> error + 'a list list" where
  \<comment> \<open>the strict \<^verbatim>\<open>zip\<close> of the lists of \<open>xss\<close> (\<^verbatim>\<open>strict=True\<close>), consumed to its end\<close>
  "zip_strict xss =
     (if xss = [] \<or> list_all (\<lambda>xs. xs = []) xss then Inr []
      else if list_ex (\<lambda>xs. xs = []) xss then Inl ZipStrictMismatch
      else (case zip_strict (map tl xss) of
              Inl e \<Rightarrow> Inl e
            | Inr rows \<Rightarrow> Inr (map hd xss # rows)))"
  by pat_completeness auto
termination
  by (relation "measure (\<lambda>xss. length (hd xss))")
     (auto simp: list_ex_iff list_all_iff hd_map neq_Nil_conv)

function zip_star :: "'a list list \<Rightarrow> 'a list list" where
  \<comment> \<open>the plain \<^verbatim>\<open>zip\<close> of the lists of \<open>xss\<close>: it ends with the shortest list\<close>
  "zip_star xss =
     (if xss = [] \<or> list_ex (\<lambda>xs. xs = []) xss then []
      else map hd xss # zip_star (map tl xss))"
  by pat_completeness auto
termination
  by (relation "measure (\<lambda>xss. length (hd xss))")
     (auto simp: list_ex_iff hd_map neq_Nil_conv)

fun join :: "string \<Rightarrow> string list \<Rightarrow> string" where
  \<comment> \<open>\<^verbatim>\<open>sep.join(xs)\<close>\<close>
  "join sep [] = []"
| "join sep [x] = x"
| "join sep (x # y # ys) = x @ sep @ join sep (y # ys)"

definition Table_format :: "'v host \<Rightarrow> 'v Table \<Rightarrow> 'v list list \<Rightarrow> (error + string) \<times> 'v Table" where
  \<comment> \<open>\<^verbatim>\<open>Table.format\<close>: the text or the exception, and the table as the call leaves it\<close>
  "Table_format H self cols =
     (let cols1 = (if headers self \<noteq> []
                   then map (\<lambda>(header, column). header # column) (zip (headers self) cols)
                   else cols)
      in case format_columns H (columns self) cols1 of
           (Inl e, cs) \<Rightarrow> (Inl e, self\<lparr>columns := cs\<rparr>)
         | (Inr formatted_columns, cs) \<Rightarrow>
             (case zip_strict formatted_columns of
                Inl e \<Rightarrow> (Inl e, self\<lparr>columns := cs\<rparr>)
              | Inr rows \<Rightarrow> (Inr (join [newline] (map concat rows)), self\<lparr>columns := cs\<rparr>)))"

definition Table_format_rows ::
  "'v host \<Rightarrow> 'v Table \<Rightarrow> 'v list list \<Rightarrow> (error + string) \<times> 'v Table" where
  \<comment> \<open>\<^verbatim>\<open>Table.format_rows\<close>\<close>
  "Table_format_rows H self rows = Table_format H self (zip_star rows)"

subsection \<open>Python's formatting of str values\<close>

text \<open>
  A model of CPython's \<^verbatim>\<open>template.format(v)\<close> for one positional argument \<^verbatim>\<open>v\<close> of class
  \<^verbatim>\<open>str\<close>, to run the functions above on concrete values. It covers the templates that
  \<^verbatim>\<open>Format.__str__\<close> and \<^verbatim>\<open>Column.__str__\<close> build: text with doubled braces and fields
  \<^verbatim>\<open>{}\<close> or \<^verbatim>\<open>{:spec}\<close>. A field with a name, a conversion or a nested field is answered
  with \<open>Unmodelled\<close>, which is no outcome of Python.
\<close>

definition digits_value :: "string \<Rightarrow> int" where
  "digits_value ds = fold (\<lambda>c n. 10 * n + (of_char c - 48)) ds 0"

definition ssize_max :: int where
  \<comment> \<open>\<^verbatim>\<open>PY_SSIZE_T_MAX\<close> of a 64-bit build\<close>
  "ssize_max = 2 ^ 63 - 1"

definition py_fill_align :: "string \<Rightarrow> string \<times> string \<times> string" where
  \<comment> \<open>the fill is any character that the alignment follows\<close>
  "py_fill_align s =
     (case s of
        c1 # c2 # cs \<Rightarrow>
          if is_align c2 then ([c1], [c2], cs)
          else if is_align c1 then ([], [c1], c2 # cs)
          else ([], [], s)
      | [c1] \<Rightarrow> if is_align c1 then ([], [c1], []) else ([], [], s)
      | [] \<Rightarrow> ([], [], s))"

definition py_pad :: "char \<Rightarrow> string \<Rightarrow> nat \<Rightarrow> string \<Rightarrow> string" where
  \<comment> \<open>\<open>n\<close> fill characters around \<open>s\<close>; a str is aligned to the left by default\<close>
  "py_pad fillc al n s =
     (if al = ''>'' then replicate n fillc @ s
      else if al = ''^'' then replicate (n div 2) fillc @ s @ replicate (n - n div 2) fillc
      else s @ replicate n fillc)"

definition py_format_str :: "string \<Rightarrow> string \<Rightarrow> error + string" where
  \<comment> \<open>\<^verbatim>\<open>format(v, spec)\<close> for a str \<^verbatim>\<open>v\<close>: sign, \<^verbatim>\<open>z\<close>, \<^verbatim>\<open>#\<close>, grouping, the alignment
      \<^verbatim>\<open>=\<close> and every type but \<^verbatim>\<open>s\<close> are a \<^verbatim>\<open>ValueError\<close>; the precision truncates\<close>
  "py_format_str spec v =
     (if spec = [] then Inr v
      else
        (let (fill_g, align_g, s1) = py_fill_align spec;
             (sign_g, s2) = match_opt is_sign s1;
             (z_g, s3) = match_opt (\<lambda>c. c = CHR ''z'') s2;
             (alt_g, s4) = match_opt (\<lambda>c. c = CHR ''#'') s3;
             (zero_g, s5) = (if fill_g = [] then match_opt (\<lambda>c. c = CHR ''0'') s4 else ([], s4));
             (width_g, s6) = match_digits s5;
             (grouping_g, s7) = match_opt is_grouping s6;
             (dot_g, s8) = match_opt (\<lambda>c. c = CHR ''.'') s7;
             (precision_g, s9) = (if dot_g = [] then ([], s8) else match_digits s8)
         in if sign_g \<noteq> [] \<or> z_g \<noteq> [] \<or> alt_g \<noteq> [] \<or> grouping_g \<noteq> [] \<or> align_g = ''=''
               \<or> (dot_g \<noteq> [] \<and> precision_g = []) \<or> \<not> (s9 = [] \<or> s9 = ''s'')
               \<or> digits_value width_g > ssize_max \<or> digits_value precision_g > ssize_max
            then Inl (HostError PyValueError)
            else
              (let t = (if dot_g = [] then v else take (nat (digits_value precision_g)) v);
                   fillc = (if fill_g \<noteq> [] then hd fill_g
                            else if zero_g \<noteq> [] then CHR ''0'' else CHR '' '')
               in Inr (py_pad fillc align_g (nat (digits_value width_g) - length t) t))))"

definition emit :: "string \<Rightarrow> error + string \<Rightarrow> error + string" where
  "emit s r = (case r of Inl e \<Rightarrow> Inl e | Inr t \<Rightarrow> Inr (s @ t))"

fun py_markup :: "string \<Rightarrow> nat \<Rightarrow> (nat \<times> string) option \<Rightarrow> string \<Rightarrow> error + string" where
  \<comment> \<open>the argument, the number of fields rendered so far, the open braces and the text of the
      format spec being read (\<open>None\<close> outside a field), and the rest of the template\<close>
  "py_markup v n None [] = Inr []"
| "py_markup v n (Some (depth, spec)) [] = Inl (HostError PyValueError)"
| "py_markup v n None (c # cs) =
     (if c = CHR ''{'' then
        (case cs of
           [] \<Rightarrow> Inl (HostError PyValueError)
         | d # ds \<Rightarrow>
             if d = CHR ''{'' then emit ''{'' (py_markup v n None ds)
             else if d = CHR '':'' then py_markup v n (Some (1, [])) ds
             else if d = CHR ''}'' then
               (if n > 0 then Inl (HostError PyIndexError)
                else emit v (py_markup v (Suc n) None ds))
             else Inl (HostError Unmodelled))
      else if c = CHR ''}'' then
        (case cs of
           [] \<Rightarrow> Inl (HostError PyValueError)
         | d # ds \<Rightarrow>
             if d = CHR ''}'' then emit ''}'' (py_markup v n None ds)
             else Inl (HostError PyValueError))
      else emit [c] (py_markup v n None cs))"
| "py_markup v n (Some (depth, spec)) (c # cs) =
     (if c = CHR ''{'' then py_markup v n (Some (Suc depth, spec @ [c])) cs
      else if c = CHR ''}'' \<and> depth = 1 then
        (if CHR ''{'' \<in> set spec then Inl (HostError Unmodelled)
         else if n > 0 then Inl (HostError PyIndexError)
         else
           (case py_format_str spec v of
              Inl e \<Rightarrow> Inl e
            | Inr s \<Rightarrow> emit s (py_markup v (Suc n) None cs)))
      else if c = CHR ''}'' then py_markup v n (Some (depth - 1, spec @ [c])) cs
      else py_markup v n (Some (depth, spec @ [c])) cs)"

definition py_host :: "string host" where
  "py_host = \<lparr>str_format = (\<lambda>template v. py_markup v 0 None template), str_value = (\<lambda>s. s)\<rparr>"

subsection \<open>The specification's grammar and transposition\<close>

text \<open>
  The grammar as the specification words it, to compare \<^const>\<open>Format_init\<close> with:
  \<^verbatim>\<open>[[fill]align] [sign] ["z"] ["#"] ["0"] [width] [grouping] ["." precision] [type]\<close>,
  where the fill is one arbitrary character, recognised only before an alignment character,
  width and precision are runs of decimal digits, and every component is optional.
\<close>

definition opt_of :: "(char \<Rightarrow> bool) \<Rightarrow> string \<Rightarrow> bool" where
  "opt_of p s \<longleftrightarrow> s = [] \<or> (\<exists>c. s = [c] \<and> p c)"

definition fill_align_of :: "(char \<Rightarrow> bool) \<Rightarrow> string \<Rightarrow> bool" where
  \<comment> \<open>\<^verbatim>\<open>[[fill]align]\<close> with the fill characters \<open>P\<close>\<close>
  "fill_align_of P s \<longleftrightarrow> s = [] \<or> (\<exists>a. is_align a \<and> (s = [a] \<or> (\<exists>f. P f \<and> s = [f, a])))"

definition spec_precision :: "string \<Rightarrow> bool" where
  "spec_precision s \<longleftrightarrow> s = [] \<or> (\<exists>ds. s = CHR ''.'' # ds \<and> ds \<noteq> [] \<and> list_all is_digit ds)"

definition grammar_with_fill :: "(char \<Rightarrow> bool) \<Rightarrow> string \<Rightarrow> bool" where
  "grammar_with_fill P s \<longleftrightarrow>
     (\<exists>fa sg zg ag zr w g p t.
        s = fa @ sg @ zg @ ag @ zr @ w @ g @ p @ t \<and>
        fill_align_of P fa \<and> opt_of is_sign sg \<and> opt_of (\<lambda>c. c = CHR ''z'') zg \<and>
        opt_of (\<lambda>c. c = CHR ''#'') ag \<and> opt_of (\<lambda>c. c = CHR ''0'') zr \<and>
        list_all is_digit w \<and> opt_of is_grouping g \<and> spec_precision p \<and> opt_of is_type t)"

definition spec_grammar :: "string \<Rightarrow> bool" where
  \<comment> \<open>the grammar of the specification: any character is a fill\<close>
  "spec_grammar s \<longleftrightarrow> grammar_with_fill (\<lambda>c. True) s"

text \<open>
  The transpose of a row-major input whose rows have one value per column: column \<open>j\<close> holds
  the \<open>j\<close>-th value of every row, in the order of the rows; no rows give no columns.
\<close>

definition transpose_rows :: "'a list list \<Rightarrow> 'a list list" where
  "transpose_rows rows =
     (case rows of
        [] \<Rightarrow> []
      | r # _ \<Rightarrow> map (\<lambda>j. map (\<lambda>row. row ! j) rows) [0..<length r])"

subsection \<open>Objects used as examples\<close>

definition empty_format :: Format where
  \<comment> \<open>\<^verbatim>\<open>Format("")\<close>\<close>
  "empty_format =
     \<lparr>fill = [], align = [], sign = [], z = [], alt = [], zero = [], width = [],
      grouping_option = [], precision = [], type = []\<rparr>"

definition plain_column :: "HRule \<Rightarrow> Column" where
  \<comment> \<open>\<^verbatim>\<open>Column("{}", hr)\<close>\<close>
  "plain_column hr =
     \<lparr>left_border = [], left_padding = [], content_format = empty_format, width = [],
      right_padding = [], right_border = [], hrule = hr,
      hrule_left_char = ''+'', hrule_char = ''-'', hrule_right_char = ''+''\<rparr>"

definition sized_column :: "string \<Rightarrow> Column" where
  \<comment> \<open>\<^verbatim>\<open>Column("{}", HRule.NONE)\<close> after a call of \<^verbatim>\<open>format\<close> that has set the width\<close>
  "sized_column w = (plain_column NONE)\<lparr>content_format := empty_format\<lparr>Format.width := w\<rparr>\<rparr>"

definition fixed_column :: Column where
  \<comment> \<open>\<^verbatim>\<open>Column("{:3}", HRule.NONE)\<close>\<close>
  "fixed_column =
     (plain_column NONE)\<lparr>content_format := empty_format\<lparr>Format.width := ''3'', precision := ''3''\<rparr>,
                          width := ''3''\<rparr>"

definition plain_table :: "string Table" where
  \<comment> \<open>\<^verbatim>\<open>Table(["{}", "{}"], None, HRule.NONE)\<close>\<close>
  "plain_table = \<lparr>headers = [], columns = [plain_column NONE, plain_column NONE]\<rparr>"

definition test_table :: "error + string Table" where
  \<comment> \<open>the Table of \<^verbatim>\<open>TestTableFormatting.setUp\<close>\<close>
  "test_table =
     (case Table_init [''|{:^10}|'', ''  {:^7} |'', '' {:^} |'']
             (Some [''Header1'', ''Header2'', ''Header3'']) FRAME_HEADER ''+-+'' of
        Inl e \<Rightarrow> Inl e
      | Inr t \<Rightarrow>
          Inr (t\<lparr>columns := (columns t)
                 [0 := (columns t ! 0)\<lparr>hrule_left_char := ''>''\<rparr>,
                  2 := (columns t ! 2)\<lparr>hrule_right_char := ''<''\<rparr>]\<rparr>))"

definition expected_output :: string where
  \<comment> \<open>\<^verbatim>\<open>expected_output\<close> of \<^verbatim>\<open>TestTableFormatting.setUp\<close>\<close>
  "expected_output =
     join [newline]
       [''>----------+----------+---------<'',
        ''| Header1  |  Header2 | Header3 |'',
        ''>----------+----------+---------<'',
        ''|   row1   |   test   |    1    |'',
        ''|   row2   |   testA  |   22    |'',
        ''|   row3   |   testB  |   333   |'',
        ''>----------+----------+---------<'']"

section \<open>Properties\<close>

declare zip_star.simps [simp del]
declare zip_strict.simps [simp del]
declare str_nat.simps [simp del]

subsection \<open>The examples are what the constructors build\<close>

lemma Format_init_empty: "Format_init [] = Inr empty_format"
  by code_simp

lemma Column_init_plain: "Column_init ''{}'' hr ''+-+'' = Inr (plain_column hr)"
  by (simp add: Column_init_def Column_fullmatch_def match_padding_def match_field_def
      match_tail_def is_space_def Format_init_def match_fill_align_def match_opt_def
      match_digits_def match_precision_def plain_column_def empty_format_def)

lemma Column_init_fixed: "Column_init ''{:3}'' NONE ''+-+'' = Inr fixed_column"
  by code_simp

lemma Table_init_plain: "Table_init [''{}'', ''{}''] None NONE ''+-+'' = Inr plain_table"
  by code_simp

text \<open>
  The test of the repository for \<^verbatim>\<open>Column\<close>, \<^verbatim>\<open>test_full_output_matches_expected\<close>, run on
  the model.
\<close>

lemma test_full_output_matches_expected:
  "(case Column_init ''|   {:-<7} #'' ALL_rule ''+-+'' of
      Inl e \<Rightarrow> Inl e
    | Inr column \<Rightarrow> fst (Column_format py_host column [''title'', ''value'', ''value'', ''value'']))
   = Inr [''+-----------+'',
          ''|   title-- #'',
          ''+-----------+'',
          ''|   value-- #'',
          ''+-----------+'',
          ''|   value-- #'',
          ''+-----------+'',
          ''|   value-- #'',
          ''+-----------+'']"
  by code_simp

text \<open>
  The tests of the repository for \<^verbatim>\<open>Table\<close>, \<^verbatim>\<open>test_table_format_columns\<close> and
  \<^verbatim>\<open>test_table_format_rows\<close>, run on the model with the numbers of the third column given as
  the strings \<^verbatim>\<open>"1"\<close>, \<^verbatim>\<open>"22"\<close> and \<^verbatim>\<open>"333"\<close>.
\<close>

lemma test_table_format_columns:
  "(case test_table of
      Inl e \<Rightarrow> Inl e
    | Inr t \<Rightarrow> fst (Table_format py_host t
        [[''row1'', ''row2'', ''row3''], [''test'', ''testA'', ''testB''], [''1'', ''22'', ''333'']]))
   = Inr expected_output"
  by code_simp

lemma test_table_format_rows:
  "(case test_table of
      Inl e \<Rightarrow> Inl e
    | Inr t \<Rightarrow> fst (Table_format_rows py_host t
        [[''row1'', ''test'', ''1''], [''row2'', ''testA'', ''22''], [''row3'', ''testB'', ''333'']]))
   = Inr expected_output"
  by code_simp

subsection \<open>Format: serialising and parsing again\<close>

lemma match_opt_append: "match_opt p s = (g, r) \<Longrightarrow> g @ r = s"
  by (auto simp: match_opt_def split: list.splits if_splits)

lemma match_fill_align_append: "match_fill_align s = (f, a, r) \<Longrightarrow> f @ a @ r = s"
  by (auto simp: match_fill_align_def split: list.splits if_splits)

lemma match_digits_append: "match_digits s = (w, r) \<Longrightarrow> w @ r = s"
  by (auto simp: match_digits_def)

lemma match_precision_append:
  "match_precision s = (p, r) \<Longrightarrow> (if p = [] then [] else CHR ''.'' # p) @ r = s"
  by (auto simp: match_precision_def split: list.splits if_splits)

text \<open>The text between \<^verbatim>\<open>{:\<close> and \<^verbatim>\<open>}\<close> of the serialised form is the string that was parsed.\<close>

lemma Format_init_spec:
  assumes "Format_init s = Inr f"
  shows "Format_spec f = s"
proof -
  obtain fg ag s1 where a1: "match_fill_align s = (fg, ag, s1)" by (metis prod_cases3)
  obtain sg s2 where a2: "match_opt is_sign s1 = (sg, s2)" by fastforce
  obtain zg s3 where a3: "match_opt (\<lambda>c. c = CHR ''z'') s2 = (zg, s3)" by fastforce
  obtain lg s4 where a4: "match_opt (\<lambda>c. c = CHR ''#'') s3 = (lg, s4)" by fastforce
  obtain og s5 where a5: "match_opt (\<lambda>c. c = CHR ''0'') s4 = (og, s5)" by fastforce
  obtain wg s6 where a6: "match_digits s5 = (wg, s6)" by fastforce
  obtain gg s7 where a7: "match_opt is_grouping s6 = (gg, s7)" by fastforce
  obtain pg s8 where a8: "match_precision s7 = (pg, s8)" by fastforce
  obtain tg s9 where a9: "match_opt is_type s8 = (tg, s9)" by fastforce
  from assms have e: "s9 = []"
    and f: "f = \<lparr>fill = fg, align = ag, sign = sg, z = zg, alt = lg, zero = og, width = wg,
                 grouping_option = gg, precision = pg, type = tg\<rparr>"
    by (auto simp: Format_init_def a1 a2 a3 a4 a5 a6 a7 a8 a9 split: if_splits)
  have "s = fg @ ag @ sg @ zg @ lg @ og @ wg @ gg @ (if pg = [] then [] else CHR ''.'' # pg) @ tg"
    using match_fill_align_append [OF a1] match_opt_append [OF a2] match_opt_append [OF a3]
      match_opt_append [OF a4] match_opt_append [OF a5] match_digits_append [OF a6]
      match_opt_append [OF a7] match_precision_append [OF a8] match_opt_append [OF a9] e
    by (metis append_Nil2 append_assoc)
  then show ?thesis by (simp add: Format_spec_def f)
qed

text \<open>
  C2, as the code has it: for every string \<open>s\<close> that \<^verbatim>\<open>Format\<close> accepts, the serialised form
  of \<^verbatim>\<open>Format(s)\<close> without its enclosing \<^verbatim>\<open>{:\<close> and \<^verbatim>\<open>}\<close> is accepted by \<^verbatim>\<open>Format\<close> and
  parses to a Format equal to \<^verbatim>\<open>Format(s)\<close> in every field.
\<close>

theorem Format_spec_roundtrip:
  "Format_init s = Inr f \<Longrightarrow> Format_init (Format_spec f) = Inr f"
  by (simp add: Format_init_spec)

text \<open>C2, an instance: \<^verbatim>\<open>Format("-<7.3s")\<close> and its serialised specification.\<close>

theorem Format_spec_roundtrip_witness:
  "Format_init ''-<7.3s''
     = Inr (empty_format\<lparr>fill := ''-'', align := ''<'', Format.width := ''7'', precision := ''3'',
                         type := ''s''\<rparr>) \<and>
   Format_init (Format_spec (empty_format\<lparr>fill := ''-'', align := ''<'', Format.width := ''7'',
                                          precision := ''3'', type := ''s''\<rparr>))
     = Inr (empty_format\<lparr>fill := ''-'', align := ''<'', Format.width := ''7'', precision := ''3'',
                         type := ''s''\<rparr>)"
proof -
  have h: "Format_init ''-<7.3s''
     = Inr (empty_format\<lparr>fill := ''-'', align := ''<'', Format.width := ''7'', precision := ''3'',
                         type := ''s''\<rparr>)"
    by code_simp
  from h Format_spec_roundtrip [OF h] show ?thesis by simp
qed

text \<open>\<^verbatim>\<open>Format\<close> rejects every serialised form: none of its groups matches the opening brace.\<close>

lemma Format_str_rejected: "Format_init (Format_str f) = Inl InvalidFormatString"
  by (simp add: Format_str_def Format_init_def match_fill_align_def match_opt_def
      match_digits_def match_precision_def is_align_def is_sign_def is_digit_def
      is_grouping_def is_type_def split: list.splits)

text \<open>
  C2, as the claim states it, fails: \<^verbatim>\<open>str(Format(""))\<close> is the replacement field \<^verbatim>\<open>{:}\<close>,
  which \<^verbatim>\<open>Format\<close> rejects.
\<close>

theorem Format_str_not_parsed:
  "Format_init [] = Inr empty_format \<and> Format_str empty_format = ''{:}'' \<and>
   Format_init (Format_str empty_format) = Inl InvalidFormatString"
  by code_simp

subsection \<open>Format: the strings that are rejected\<close>

text \<open>Every string that is parsed is a string of the grammar whose fill is no newline.\<close>

lemma match_opt_opt_of: "match_opt p s = (g, r) \<Longrightarrow> opt_of p g"
  by (auto simp: match_opt_def opt_of_def split: list.splits if_splits)

lemma match_fill_align_of:
  "match_fill_align s = (f, a, r) \<Longrightarrow> fill_align_of (\<lambda>c. c \<noteq> newline) (f @ a)"
  by (auto simp: match_fill_align_def fill_align_of_def split: list.splits if_splits)

lemma match_digits_digits: "match_digits s = (w, r) \<Longrightarrow> list_all is_digit w"
  by (auto simp: match_digits_def list_all_iff dest: set_takeWhileD)

lemma match_precision_spec:
  "match_precision s = (p, r) \<Longrightarrow> spec_precision (if p = [] then [] else CHR ''.'' # p)"
  by (auto simp: match_precision_def spec_precision_def list_all_iff
      split: list.splits if_splits dest: set_takeWhileD)

lemma Format_init_grammar:
  assumes "Format_init s = Inr f"
  shows "grammar_with_fill (\<lambda>c. c \<noteq> newline) s"
proof -
  obtain fg ag s1 where a1: "match_fill_align s = (fg, ag, s1)" by (metis prod_cases3)
  obtain sg s2 where a2: "match_opt is_sign s1 = (sg, s2)" by fastforce
  obtain zg s3 where a3: "match_opt (\<lambda>c. c = CHR ''z'') s2 = (zg, s3)" by fastforce
  obtain lg s4 where a4: "match_opt (\<lambda>c. c = CHR ''#'') s3 = (lg, s4)" by fastforce
  obtain og s5 where a5: "match_opt (\<lambda>c. c = CHR ''0'') s4 = (og, s5)" by fastforce
  obtain wg s6 where a6: "match_digits s5 = (wg, s6)" by fastforce
  obtain gg s7 where a7: "match_opt is_grouping s6 = (gg, s7)" by fastforce
  obtain pg s8 where a8: "match_precision s7 = (pg, s8)" by fastforce
  obtain tg s9 where a9: "match_opt is_type s8 = (tg, s9)" by fastforce
  from assms have e: "s9 = []"
    by (auto simp: Format_init_def a1 a2 a3 a4 a5 a6 a7 a8 a9 split: if_splits)
  have "s = (fg @ ag) @ sg @ zg @ lg @ og @ wg @ gg @ (if pg = [] then [] else CHR ''.'' # pg) @ tg"
    using match_fill_align_append [OF a1] match_opt_append [OF a2] match_opt_append [OF a3]
      match_opt_append [OF a4] match_opt_append [OF a5] match_digits_append [OF a6]
      match_opt_append [OF a7] match_precision_append [OF a8] match_opt_append [OF a9] e
    by (metis append_Nil2 append_assoc)
  then show ?thesis
    unfolding grammar_with_fill_def
    using match_fill_align_of [OF a1] match_opt_opt_of [OF a2] match_opt_opt_of [OF a3]
      match_opt_opt_of [OF a4] match_opt_opt_of [OF a5] match_digits_digits [OF a6]
      match_opt_opt_of [OF a7] match_precision_spec [OF a8] match_opt_opt_of [OF a9]
    by blast
qed

text \<open>Every string of the grammar whose fill is no newline is parsed.\<close>

lemma match_opt_opt:
  assumes "opt_of p g" and "\<And>c cs. g = [] \<Longrightarrow> r = c # cs \<Longrightarrow> \<not> p c"
  shows "match_opt p (g @ r) = (g, r)"
  using assms by (cases r) (auto simp: match_opt_def opt_of_def)

lemma opt_of_first: "opt_of p g \<Longrightarrow> g @ r = c # cs \<Longrightarrow> p c \<or> r = c # cs"
  by (auto simp: opt_of_def)

lemma digits_first: "list_all is_digit w \<Longrightarrow> w @ r = c # cs \<Longrightarrow> is_digit c \<or> r = c # cs"
  by (cases w) auto

lemma precision_first: "spec_precision p \<Longrightarrow> p @ r = c # cs \<Longrightarrow> c = CHR ''.'' \<or> r = c # cs"
  by (auto simp: spec_precision_def)

lemma type_facts:
  "is_type c \<Longrightarrow> c \<noteq> CHR ''.'' \<and> \<not> is_grouping c \<and> \<not> is_digit c \<and> c \<noteq> CHR ''#'' \<and> c \<noteq> CHR ''z''
     \<and> \<not> is_sign c \<and> \<not> is_align c"
  by (auto simp: is_type_def is_grouping_def is_digit_def is_sign_def is_align_def)

lemma dot_facts:
  "\<not> is_grouping (CHR ''.'') \<and> \<not> is_digit (CHR ''.'') \<and> \<not> is_sign (CHR ''.'') \<and> \<not> is_align (CHR ''.'')"
  by (auto simp: is_grouping_def is_digit_def is_sign_def is_align_def)

lemma grouping_facts:
  "is_grouping c \<Longrightarrow> \<not> is_digit c \<and> c \<noteq> CHR ''#'' \<and> c \<noteq> CHR ''z'' \<and> \<not> is_sign c \<and> \<not> is_align c"
  by (auto simp: is_grouping_def is_digit_def is_sign_def is_align_def)

lemma digit_facts:
  "is_digit c \<Longrightarrow> c \<noteq> CHR ''#'' \<and> c \<noteq> CHR ''z'' \<and> \<not> is_sign c \<and> \<not> is_align c"
  by (auto simp: is_digit_def is_sign_def is_align_def)

lemma sign_facts: "is_sign c \<Longrightarrow> \<not> is_align c"
  by (auto simp: is_sign_def is_align_def)

lemma misc_facts:
  "\<not> is_sign (CHR ''#'')" "\<not> is_align (CHR ''#'')" "\<not> is_sign (CHR ''z'')" "\<not> is_align (CHR ''z'')"
  "is_digit (CHR ''0'')"
  by (auto simp: is_sign_def is_align_def is_digit_def)


lemma digits_run:
  assumes "list_all is_digit w" and "\<And>c cs. r = c # cs \<Longrightarrow> \<not> is_digit c"
  shows "takeWhile is_digit (w @ r) = w" and "dropWhile is_digit (w @ r) = r"
proof -
  from assms(1) have w: "\<And>x. x \<in> set w \<Longrightarrow> is_digit x" by (simp add: list_all_iff)
  from assms(2) have r: "takeWhile is_digit r = []" "dropWhile is_digit r = r"
    by (cases r; simp)+
  show "takeWhile is_digit (w @ r) = w" by (simp add: takeWhile_append2 w r)
  show "dropWhile is_digit (w @ r) = r" by (simp add: dropWhile_append2 w r)
qed

lemma match_fill_align_grammar:
  assumes "fill_align_of (\<lambda>c. c \<noteq> newline) fa" and "\<And>c. c \<in> set r \<Longrightarrow> \<not> is_align c"
  shows "\<exists>f a. match_fill_align (fa @ r) = (f, a, r)"
proof -
  have r2: "\<not> is_align c1 \<and> \<not> is_align c2" if "r = c1 # c2 # cs" for c1 c2 cs
    using that assms(2) by auto
  have r1: "\<not> is_align c1" if "r = c1 # cs" for c1 cs
    using that assms(2) by auto
  from assms(1) consider "fa = []" | a where "is_align a" "fa = [a]"
    | f a where "is_align a" "f \<noteq> newline" "fa = [f, a]"
    by (auto simp: fill_align_of_def)
  then show ?thesis
  proof cases
    case 1
    then show ?thesis using r1 r2
      by (auto simp: match_fill_align_def split: list.splits)
  next
    case 2
    then show ?thesis using r1
      by (auto simp: match_fill_align_def split: list.splits)
  next
    case 3
    then show ?thesis by (simp add: match_fill_align_def)
  qed
qed

lemma match_precision_grammar:
  assumes "spec_precision p" and "opt_of is_type t"
  shows "\<exists>pd. match_precision (p @ t) = (pd, t)"
proof -
  have t: "\<not> is_digit c \<and> c \<noteq> CHR ''.''" if "t = c # cs" for c cs
    using that assms(2) type_facts [of c] by (auto simp: opt_of_def)
  from assms(1) consider "p = []" | ds where "p = CHR ''.'' # ds" "ds \<noteq> []" "list_all is_digit ds"
    by (auto simp: spec_precision_def)
  then show ?thesis
  proof cases
    case 1
    then show ?thesis using t by (auto simp: match_precision_def split: list.splits)
  next
    case 2
    from digits_run [OF 2(3), of t] t
    have "takeWhile is_digit (ds @ t) = ds" "dropWhile is_digit (ds @ t) = t" by blast+
    with 2 show ?thesis by (simp add: match_precision_def)
  qed
qed

lemma zero_width_normal:
  assumes "opt_of (\<lambda>c. c = CHR ''0'') zr" and "list_all is_digit w"
  shows "\<exists>zr' w'. zr @ w = zr' @ w' \<and> opt_of (\<lambda>c. c = CHR ''0'') zr' \<and> list_all is_digit w' \<and>
           (zr' = [] \<longrightarrow> (\<forall>c cs. w' = c # cs \<longrightarrow> c \<noteq> CHR ''0''))"
proof (cases "zr = [] \<and> (\<exists>cs. w = CHR ''0'' # cs)")
  case True
  then obtain cs where "zr = []" "w = CHR ''0'' # cs" by blast
  with assms(2) have "zr @ w = ''0'' @ cs \<and> opt_of (\<lambda>c. c = CHR ''0'') ''0'' \<and> list_all is_digit cs"
    by (auto simp: opt_of_def)
  then show ?thesis by blast
next
  case False
  with assms show ?thesis by (intro exI [of _ zr] exI [of _ w]) auto
qed

lemma grammar_Format_init:
  assumes "grammar_with_fill (\<lambda>c. c \<noteq> newline) s"
  shows "\<exists>f. Format_init s = Inr f"
proof -
  from assms obtain fa sg zg ag zr w g p t where
    s: "s = fa @ sg @ zg @ ag @ zr @ w @ g @ p @ t"
    and fa: "fill_align_of (\<lambda>c. c \<noteq> newline) fa" and sg: "opt_of is_sign sg"
    and zg: "opt_of (\<lambda>c. c = CHR ''z'') zg" and ag: "opt_of (\<lambda>c. c = CHR ''#'') ag"
    and zr: "opt_of (\<lambda>c. c = CHR ''0'') zr" and w: "list_all is_digit w"
    and g: "opt_of is_grouping g" and p: "spec_precision p" and t: "opt_of is_type t"
    unfolding grammar_with_fill_def by blast
  from zero_width_normal [OF zr w]
  obtain zr' w' where zw: "zr @ w = zr' @ w'" and zr': "opt_of (\<lambda>c. c = CHR ''0'') zr'"
    and w': "list_all is_digit w'"
    and nz: "\<And>c cs. zr' = [] \<Longrightarrow> w' = c # cs \<Longrightarrow> c \<noteq> CHR ''0''"
    by blast
  define R8 where "R8 = p @ t"
  define R7 where "R7 = g @ R8"
  define R6 where "R6 = w' @ R7"
  define R5 where "R5 = zr' @ R6"
  define R4 where "R4 = ag @ R5"
  define R3 where "R3 = zg @ R4"
  define R2 where "R2 = sg @ R3"
  have s': "s = fa @ R2"
    using s zw by (simp add: R2_def R3_def R4_def R5_def R6_def R7_def R8_def)
  have f9: "is_type c" if "t = c # cs" for c cs
    using that t by (auto simp: opt_of_def)
  have f8: "c = CHR ''.'' \<or> is_type c" if "R8 = c # cs" for c cs
    using precision_first [OF p, of t c cs] that f9 by (auto simp: R8_def)
  have f7: "is_grouping c \<or> c = CHR ''.'' \<or> is_type c" if "R7 = c # cs" for c cs
    using opt_of_first [OF g, of R8 c cs] that f8 by (auto simp: R7_def)
  have f6: "is_digit c \<or> is_grouping c \<or> c = CHR ''.'' \<or> is_type c" if "R6 = c # cs" for c cs
    using digits_first [OF w', of R7 c cs] that f7 by (auto simp: R6_def)
  have f5: "is_digit c \<or> is_grouping c \<or> c = CHR ''.'' \<or> is_type c" if "R5 = c # cs" for c cs
    using opt_of_first [OF zr', of R6 c cs] that f6 misc_facts by (auto simp: R5_def)
  have f4: "c = CHR ''#'' \<or> is_digit c \<or> is_grouping c \<or> c = CHR ''.'' \<or> is_type c"
    if "R4 = c # cs" for c cs
    using opt_of_first [OF ag, of R5 c cs] that f5 by (auto simp: R4_def)
  have f3: "c = CHR ''z'' \<or> c = CHR ''#'' \<or> is_digit c \<or> is_grouping c \<or> c = CHR ''.'' \<or> is_type c"
    if "R3 = c # cs" for c cs
    using opt_of_first [OF zg, of R4 c cs] that f4 by (auto simp: R3_def)
  have n8: "\<not> is_grouping c" if "R8 = c # cs" for c cs
    using f8 [OF that] type_facts [of c] dot_facts by auto
  have n7: "\<not> is_digit c" if "R7 = c # cs" for c cs
    using f7 [OF that] type_facts [of c] dot_facts grouping_facts [of c] by auto
  have n5: "c \<noteq> CHR ''#''" if "R5 = c # cs" for c cs
    using f5 [OF that] type_facts [of c] grouping_facts [of c] digit_facts [of c] by auto
  have n4: "c \<noteq> CHR ''z''" if "R4 = c # cs" for c cs
    using f4 [OF that] type_facts [of c] grouping_facts [of c] digit_facts [of c] by auto
  have n3: "\<not> is_sign c" if "R3 = c # cs" for c cs
    using f3 [OF that] type_facts [of c] grouping_facts [of c] digit_facts [of c] dot_facts
      misc_facts by auto
  have m9: "match_opt is_type t = (t, [])"
    using match_opt_opt [OF t, of "[]"] by simp
  obtain pd where m8: "match_precision R8 = (pd, t)"
    using match_precision_grammar [OF p t] by (auto simp: R8_def)
  have m7: "match_opt is_grouping R7 = (g, R8)"
    unfolding R7_def by (rule match_opt_opt [OF g]) (rule n8)
  have m6: "match_digits R6 = (w', R7)"
    unfolding R6_def match_digits_def
    using digits_run [OF w', of R7] n7 by simp
  have m5: "match_opt (\<lambda>c. c = CHR ''0'') R5 = (zr', R6)"
    unfolding R5_def
  proof (rule match_opt_opt [OF zr'])
    fix c cs assume e: "zr' = []" and r: "R6 = c # cs"
    show "c \<noteq> CHR ''0''"
    proof (cases w')
      case Nil
      with r have "R7 = c # cs" by (simp add: R6_def)
      from n7 [OF this] show ?thesis using misc_facts(5) by auto
    next
      case (Cons d ds)
      with r have "w' = c # ds" by (simp add: R6_def)
      from nz [OF e this] show ?thesis .
    qed
  qed
  have m4: "match_opt (\<lambda>c. c = CHR ''#'') R4 = (ag, R5)"
    unfolding R4_def by (rule match_opt_opt [OF ag]) (rule n5)
  have m3: "match_opt (\<lambda>c. c = CHR ''z'') R3 = (zg, R4)"
    unfolding R3_def by (rule match_opt_opt [OF zg]) (rule n4)
  have m2: "match_opt is_sign R2 = (sg, R3)"
    unfolding R2_def by (rule match_opt_opt [OF sg]) (rule n3)
  have na: "\<not> is_align c" if "c \<in> set R2" for c
  proof -
    have "set sg \<subseteq> {c. is_sign c}" "set zg \<subseteq> {CHR ''z''}" "set ag \<subseteq> {CHR ''#''}"
      "set zr' \<subseteq> {CHR ''0''}" "set g \<subseteq> {c. is_grouping c}" "set t \<subseteq> {c. is_type c}"
      using sg zg ag zr' g t by (auto simp: opt_of_def)
    moreover have "set w' \<subseteq> {c. is_digit c}" using w' by (auto simp: list_all_iff)
    moreover have "set p \<subseteq> {c. is_digit c} \<union> {CHR ''.''}"
      using p by (auto simp: spec_precision_def list_all_iff)
    ultimately have "is_sign c \<or> c = CHR ''z'' \<or> c = CHR ''#'' \<or> c = CHR ''0'' \<or> is_grouping c
        \<or> is_type c \<or> is_digit c \<or> c = CHR ''.''"
      using that by (auto simp: R2_def R3_def R4_def R5_def R6_def R7_def R8_def)
    then show ?thesis
      using type_facts [of c] dot_facts grouping_facts [of c] digit_facts [of c] sign_facts [of c]
        misc_facts by auto
  qed
  obtain f a where m1: "match_fill_align s = (f, a, R2)"
    using match_fill_align_grammar [OF fa, of R2] na s' by auto
  show ?thesis
    by (simp add: Format_init_def m1 m2 m3 m4 m5 m6 m7 m8 m9)
qed

text \<open>
  \<^verbatim>\<open>Format\<close> raises exactly on the strings outside the grammar whose fill is any character but
  a newline.
\<close>

lemma Format_init_raises_iff:
  "Format_init s = Inl InvalidFormatString \<longleftrightarrow> \<not> grammar_with_fill (\<lambda>c. c \<noteq> newline) s"
proof
  assume "Format_init s = Inl InvalidFormatString"
  then show "\<not> grammar_with_fill (\<lambda>c. c \<noteq> newline) s"
    using grammar_Format_init [of s] by auto
next
  assume n: "\<not> grammar_with_fill (\<lambda>c. c \<noteq> newline) s"
  show "Format_init s = Inl InvalidFormatString"
  proof (cases "Format_init s")
    case (Inl e)
    then show ?thesis
      by (auto simp: Format_init_def Let_def split: prod.splits if_splits)
  next
    case (Inr f)
    from Format_init_grammar [OF this] n show ?thesis by contradiction
  qed
qed

text \<open>
  C8, where the code leaves the grammar: a newline followed by an alignment character is a
  fill and an alignment of the grammar, and \<^verbatim>\<open>Format\<close> rejects it, because \<^verbatim>\<open>.\<close> matches no
  newline.
\<close>

theorem Format_init_newline_fill:
  "spec_grammar [newline, CHR ''<''] \<and> Format_init [newline, CHR ''<''] = Inl InvalidFormatString"
proof
  have "[newline, CHR ''<''] = [newline, CHR ''<''] @ [] @ [] @ [] @ [] @ [] @ [] @ [] @ []"
    by simp
  moreover have "fill_align_of (\<lambda>c. True) [newline, CHR ''<'']"
    by (auto simp: fill_align_of_def is_align_def)
  ultimately show "spec_grammar [newline, CHR ''<'']"
    unfolding spec_grammar_def grammar_with_fill_def
    by (intro exI [of _ "[]"] exI [of _ "[newline, CHR ''<'']"])
       (simp add: opt_of_def spec_precision_def)
  show "Format_init [newline, CHR ''<''] = Inl InvalidFormatString"
    by code_simp
qed

text \<open>\<^verbatim>\<open>Format("q")\<close> raises: \<^verbatim>\<open>q\<close> is no type character and nothing else can take it.\<close>

lemma Format_init_q: "Format_init ''q'' = Inl InvalidFormatString"
  by code_simp

subsection \<open>Column.format: the lines it returns\<close>

lemma map_result_length: "map_result f xs = Inr ys \<Longrightarrow> length ys = length xs"
  by (induction xs arbitrary: ys) (auto split: sum.splits)

lemma column_loop_map_result:
  "column_loop H fmt hr p vs out =
     (case map_result (str_format H fmt) vs of
        Inl e \<Rightarrow> Inl e
      | Inr rs \<Rightarrow> Inr (out @ (if p = ALL_rule then concat (map (\<lambda>l. [l, hr]) rs) else rs)))"
  by (induction vs arbitrary: out) (auto split: sum.splits)

lemma length_concat_pairs: "length (concat (map (\<lambda>l. [l, hr]) rs)) = 2 * length rs"
  by (induction rs) auto

text \<open>What a call of \<^verbatim>\<open>Column.format\<close> that returns has computed, for each policy.\<close>

lemma Column_format_InrE:
  assumes "Column_format H c vs = (Inr ls, c')"
  obtains w hr rs where
    "content_width H c vs = Inr w"
    "c' = c\<lparr>content_format := (content_format c)\<lparr>Format.width := w\<rparr>\<rparr>"
    "hrule_line H c' = Inr hr"
    "map_result (str_format H (Column_str c')) vs = Inr rs"
    "ls = (case hrule c of
             NONE \<Rightarrow> rs
           | HEADER \<Rightarrow> list_insert 1 hr rs
           | FRAME \<Rightarrow> hr # rs @ [hr]
           | FRAME_HEADER \<Rightarrow> (if length vs > 1 then list_insert 2 hr (hr # rs) else hr # rs) @ [hr]
           | ALL_rule \<Rightarrow> hr # concat (map (\<lambda>l. [l, hr]) rs))"
  using assms
  by (cases "hrule c")
     (auto simp: Column_format_def Let_def column_loop_map_result split: sum.splits if_splits)

text \<open>
  The call returns when the width can be computed and \<^verbatim>\<open>str.format\<close> renders the empty
  string and every value.
\<close>

lemma Column_format_returns:
  assumes "content_width H c vs = Inr w"
    and "c1 = c\<lparr>content_format := (content_format c)\<lparr>Format.width := w\<rparr>\<rparr>"
    and "hrule_line H c1 = Inr hr"
    and "map_result (str_format H (Column_str c1)) vs = Inr rs"
  shows "\<exists>ls. Column_format H c vs = (Inr ls, c1)"
  using assms by (simp add: Column_format_def Let_def column_loop_map_result)

text \<open>
  C3: a call of \<^verbatim>\<open>Column.format\<close> that returns its lines returns \<^verbatim>\<open>len(values) + 2\<close> lines
  under the policy \<^verbatim>\<open>FRAME\<close>, \<^verbatim>\<open>2 * len(values) + 1\<close> lines under \<^verbatim>\<open>ALL\<close> and \<^verbatim>\<open>len(values)\<close>
  lines under \<^verbatim>\<open>NONE\<close>.
\<close>

theorem Column_format_line_count:
  assumes "fst (Column_format H c vs) = Inr ls"
  shows "(hrule c = FRAME \<longrightarrow> length ls = length vs + 2) \<and>
         (hrule c = ALL_rule \<longrightarrow> length ls = 2 * length vs + 1) \<and>
         (hrule c = NONE \<longrightarrow> length ls = length vs)"
proof -
  obtain c' where "Column_format H c vs = (Inr ls, c')"
    using assms by (cases "Column_format H c vs") auto
  then obtain hr rs where rs: "map_result (str_format H (Column_str c')) vs = Inr rs"
    and ls: "ls = (case hrule c of
             NONE \<Rightarrow> rs
           | HEADER \<Rightarrow> list_insert 1 hr rs
           | FRAME \<Rightarrow> hr # rs @ [hr]
           | FRAME_HEADER \<Rightarrow> (if length vs > 1 then list_insert 2 hr (hr # rs) else hr # rs) @ [hr]
           | ALL_rule \<Rightarrow> hr # concat (map (\<lambda>l. [l, hr]) rs))"
    by (rule Column_format_InrE)
  from rs have "length rs = length vs" by (rule map_result_length)
  with ls show ?thesis by (simp add: length_concat_pairs)
qed

text \<open>C3, instances: two values under each of the three policies.\<close>

theorem Column_format_line_count_witness:
  "fst (Column_format py_host (plain_column FRAME) [''a'', ''bc''])
     = Inr [''--'', ''a '', ''bc'', ''--''] \<and>
   length [''--'', ''a '', ''bc'', ''--''] = length [''a'', ''bc''] + 2 \<and>
   fst (Column_format py_host (plain_column ALL_rule) [''a'', ''bc''])
     = Inr [''--'', ''a '', ''--'', ''bc'', ''--''] \<and>
   length [''--'', ''a '', ''--'', ''bc'', ''--''] = 2 * length [''a'', ''bc''] + 1 \<and>
   fst (Column_format py_host (plain_column NONE) [''a'', ''bc'']) = Inr [''a '', ''bc''] \<and>
   length [''a '', ''bc''] = length [''a'', ''bc'']"
proof -
  have f: "fst (Column_format py_host (plain_column FRAME) [''a'', ''bc''])
     = Inr [''--'', ''a '', ''bc'', ''--'']"
    by code_simp
  have a: "fst (Column_format py_host (plain_column ALL_rule) [''a'', ''bc''])
     = Inr [''--'', ''a '', ''--'', ''bc'', ''--'']"
    by code_simp
  have n: "fst (Column_format py_host (plain_column NONE) [''a'', ''bc'']) = Inr [''a '', ''bc'']"
    by code_simp
  from f a n Column_format_line_count [OF f] Column_format_line_count [OF a]
    Column_format_line_count [OF n]
  show ?thesis by (simp add: plain_column_def)
qed

text \<open>
  C4: under the policy \<^verbatim>\<open>HEADER\<close> the rule is the second line, right after the first rendered
  value, also when there is one value only; under \<^verbatim>\<open>FRAME_HEADER\<close> with more than one value
  the lines are the rule, the first value, the rule, the other values and the rule, and with
  exactly one value they are the rule, the value and the rule.
\<close>

theorem Column_format_header_rule:
  assumes "Column_format H c vs = (Inr ls, c')"
  shows "\<exists>hr rs. hrule_line H c' = Inr hr \<and>
           map_result (str_format H (Column_str c')) vs = Inr rs \<and>
           (hrule c = HEADER \<and> vs \<noteq> [] \<longrightarrow> ls = hd rs # hr # tl rs) \<and>
           (hrule c = FRAME_HEADER \<and> length vs > 1 \<longrightarrow> ls = hr # hd rs # hr # tl rs @ [hr]) \<and>
           (hrule c = FRAME_HEADER \<and> length vs = 1 \<longrightarrow> ls = [hr, hd rs, hr])"
proof -
  from assms obtain hr rs where hr: "hrule_line H c' = Inr hr"
    and rs: "map_result (str_format H (Column_str c')) vs = Inr rs"
    and ls: "ls = (case hrule c of
             NONE \<Rightarrow> rs
           | HEADER \<Rightarrow> list_insert 1 hr rs
           | FRAME \<Rightarrow> hr # rs @ [hr]
           | FRAME_HEADER \<Rightarrow> (if length vs > 1 then list_insert 2 hr (hr # rs) else hr # rs) @ [hr]
           | ALL_rule \<Rightarrow> hr # concat (map (\<lambda>l. [l, hr]) rs))"
    by (rule Column_format_InrE)
  from rs have len: "length rs = length vs" by (rule map_result_length)
  have "ls = hd rs # hr # tl rs" if "hrule c = HEADER" "vs \<noteq> []"
    using that ls len by (cases rs) (auto simp: list_insert_def)
  moreover have "ls = hr # hd rs # hr # tl rs @ [hr]" if "hrule c = FRAME_HEADER" "length vs > 1"
    using that ls len by (cases rs) (auto simp: list_insert_def)
  moreover have "ls = [hr, hd rs, hr]" if "hrule c = FRAME_HEADER" "length vs = 1"
    using that ls len by (cases rs) (auto simp: list_insert_def)
  ultimately show ?thesis using hr rs by blast
qed

text \<open>
  C4, instances: one value under \<^verbatim>\<open>HEADER\<close>, two values and one value under \<^verbatim>\<open>FRAME_HEADER\<close>.
\<close>

theorem Column_format_header_rule_witness:
  "Column_format py_host (plain_column HEADER) [''a'']
     = (Inr [''a'', ''-''], (plain_column HEADER)\<lparr>content_format := empty_format\<lparr>Format.width := ''1''\<rparr>\<rparr>) \<and>
   Column_format py_host (plain_column FRAME_HEADER) [''a'', ''bc'']
     = (Inr [''--'', ''a '', ''--'', ''bc'', ''--''],
        (plain_column FRAME_HEADER)\<lparr>content_format := empty_format\<lparr>Format.width := ''2''\<rparr>\<rparr>) \<and>
   Column_format py_host (plain_column FRAME_HEADER) [''a'']
     = (Inr [''-'', ''a'', ''-''],
        (plain_column FRAME_HEADER)\<lparr>content_format := empty_format\<lparr>Format.width := ''1''\<rparr>\<rparr>) \<and>
   (\<exists>hr rs. [''a'', ''-''] = hd rs # hr # tl rs) \<and>
   (\<exists>hr rs. [''--'', ''a '', ''--'', ''bc'', ''--''] = hr # hd rs # hr # tl rs @ [hr]) \<and>
   (\<exists>hr rs. [''-'', ''a'', ''-''] = [hr, hd rs, hr])"
proof -
  have h: "Column_format py_host (plain_column HEADER) [''a'']
     = (Inr [''a'', ''-''], (plain_column HEADER)\<lparr>content_format := empty_format\<lparr>Format.width := ''1''\<rparr>\<rparr>)"
    by code_simp
  have f2: "Column_format py_host (plain_column FRAME_HEADER) [''a'', ''bc'']
     = (Inr [''--'', ''a '', ''--'', ''bc'', ''--''],
        (plain_column FRAME_HEADER)\<lparr>content_format := empty_format\<lparr>Format.width := ''2''\<rparr>\<rparr>)"
    by code_simp
  have f1: "Column_format py_host (plain_column FRAME_HEADER) [''a'']
     = (Inr [''-'', ''a'', ''-''],
        (plain_column FRAME_HEADER)\<lparr>content_format := empty_format\<lparr>Format.width := ''1''\<rparr>\<rparr>)"
    by code_simp
  have "\<exists>hr rs. [''a'', ''-''] = hd rs # hr # tl rs"
    using Column_format_header_rule [OF h] by (simp add: plain_column_def) blast
  moreover have "\<exists>hr rs. [''--'', ''a '', ''--'', ''bc'', ''--''] = hr # hd rs # hr # tl rs @ [hr]"
    using Column_format_header_rule [OF f2] by (simp add: plain_column_def) blast
  moreover have "\<exists>hr rs. [''-'', ''a'', ''-''] = [hr, hd rs, hr]"
    using Column_format_header_rule [OF f1] by (simp add: plain_column_def) blast
  ultimately show ?thesis using h f2 f1 by simp
qed

subsection \<open>Column.format without an explicit width\<close>

text \<open>
  C10: on a Column without explicit width, \<^verbatim>\<open>Column.format\<close> of no values raises the
  \<^verbatim>\<open>ValueError\<close> of \<^verbatim>\<open>max\<close> over an empty iterable and leaves the Column as it was, so a call
  that returns lines was given at least one value.
\<close>

theorem Column_format_empty:
  assumes "width c = []"
  shows "Column_format H c [] = (Inl MaxEmptySequence, c) \<and>
         (\<forall>vs ls. fst (Column_format H c vs) = Inr ls \<longrightarrow> vs \<noteq> [])"
proof -
  have "Column_format H c [] = (Inl MaxEmptySequence, c)"
    using assms by (simp add: Column_format_def content_width_def max_list_def)
  then show ?thesis by auto
qed

text \<open>C10, an instance: \<^verbatim>\<open>Column("{}", HRule.NONE)\<close>, with no value and with one.\<close>

theorem Column_format_empty_witness:
  "width (plain_column NONE) = [] \<and>
   Column_format py_host (plain_column NONE) [] = (Inl MaxEmptySequence, plain_column NONE) \<and>
   fst (Column_format py_host (plain_column NONE) [''a'']) = Inr [''a''] \<and> [''a''] \<noteq> []"
proof -
  have w: "width (plain_column NONE) = []" by (simp add: plain_column_def)
  have r: "fst (Column_format py_host (plain_column NONE) [''a'']) = Inr [''a'']" by code_simp
  from w r Column_format_empty [OF w, of py_host] show ?thesis by blast
qed

lemma Column_init_fields:
  assumes "Column_init format hr hrule_format = Inr c"
  shows "precision (content_format c) = width c \<and> Format.width (content_format c) = width c"
  using assms
  by (auto simp: Column_init_def split: option.splits sum.splits list.splits prod.splits)

lemma Column_format_state:
  "snd (Column_format H c vs) = c \<or>
   (\<exists>w. content_width H c vs = Inr w \<and>
        snd (Column_format H c vs) = c\<lparr>content_format := (content_format c)\<lparr>Format.width := w\<rparr>\<rparr>)"
  by (auto simp: Column_format_def Let_def split: sum.splits)

lemma content_width_explicit: "width c \<noteq> [] \<Longrightarrow> content_width H c vs = Inr w \<Longrightarrow> w = width c"
  by (simp add: content_width_def)

lemma Column_format_invariant:
  assumes "precision (content_format c) = width c"
    and "width c \<noteq> [] \<longrightarrow> Format.width (content_format c) = width c"
  shows "precision (content_format (snd (Column_format H c vs))) = width c \<and>
         width (snd (Column_format H c vs)) = width c \<and>
         (width c \<noteq> [] \<longrightarrow> Format.width (content_format (snd (Column_format H c vs))) = width c)"
  using assms Column_format_state [of H c vs] content_width_explicit [of c H vs]
  by auto

lemma fold_Column_format_invariant:
  assumes "precision (content_format c) = width c"
    and "width c \<noteq> [] \<longrightarrow> Format.width (content_format c) = width c"
  shows "precision (content_format (fold (\<lambda>vs c. snd (Column_format H c vs)) vss c)) = width c \<and>
         width (fold (\<lambda>vs c. snd (Column_format H c vs)) vss c) = width c \<and>
         (width c \<noteq> [] \<longrightarrow>
            Format.width (content_format (fold (\<lambda>vs c. snd (Column_format H c vs)) vss c)) = width c)"
  using assms
proof (induction vss arbitrary: c)
  case Nil
  then show ?case by simp
next
  case (Cons vs vss)
  from Column_format_invariant [OF Cons.prems, of H vs]
  show ?case using Cons.IH [of "snd (Column_format H c vs)"] by simp
qed

lemma max_list_Max:
  assumes "ns \<noteq> []"
  shows "max_list ns = Inr (Max (set ns))"
proof (cases ns)
  case Nil
  with assms show ?thesis by simp
next
  case (Cons n ms)
  have "fold max ms n = Max (set (n # ms))" by (rule Max.set_eq_fold [symmetric])
  with Cons show ?thesis by (simp add: max_list_def)
qed

text \<open>
  A call of \<^verbatim>\<open>Column.format\<close> that has computed a width leaves it in the content spec,
  whatever happens later in the call.
\<close>

lemma str_nat_nonempty: "str_nat n \<noteq> []"
  by (subst str_nat.simps) simp

lemma Column_format_width_assigned:
  assumes "content_width H c vs = Inr w"
  shows "snd (Column_format H c vs) = c\<lparr>content_format := (content_format c)\<lparr>Format.width := w\<rparr>\<rparr>"
  using assms by (auto simp: Column_format_def Let_def split: sum.splits)

lemma content_width_measured:
  assumes "width c = []" and "vs \<noteq> []"
    and "map_result (Format_format H (content_format c)) vs = Inr rs"
  shows "content_width H c vs = Inr (str_nat (Max (set (map length rs))))"
proof -
  from assms(3) have "length rs = length vs" by (rule map_result_length)
  with assms(2) have "map length rs \<noteq> []" by auto
  then have "max_list (map length rs) = Inr (Max (set (map length rs)))"
    by (rule max_list_Max)
  with assms(1,3) show ?thesis by (simp add: content_width_def)
qed

text \<open>
  C5, as the code has it: at every point after construction, also after every call of
  \<^verbatim>\<open>Column.format\<close>, the precision of the content spec is the width written in the format
  string of the Column (both unset when none is written); the width of the content spec is
  equal to it after construction, and after every call when the format string has a width.
  When the format string has no width, a call that measures a non-empty sequence of values
  sets the width of the content spec to the decimal numeral of the largest length among the
  values as the call renders them to measure, which is not empty, and leaves the precision
  unset, so that width and precision differ from then on.
\<close>

theorem Column_precision_invariant:
  assumes "Column_init format hr hrule_format = Inr c"
  shows "precision (content_format (fold (\<lambda>vs c. snd (Column_format H c vs)) vss c)) = width c \<and>
         (width c \<noteq> [] \<or> vss = [] \<longrightarrow>
            Format.width (content_format (fold (\<lambda>vs c. snd (Column_format H c vs)) vss c)) = width c) \<and>
         (width c = [] \<longrightarrow>
            (\<forall>vs rs. vs \<noteq> [] \<and>
                 map_result (Format_format H
                     (content_format (fold (\<lambda>vs c. snd (Column_format H c vs)) vss c))) vs = Inr rs
               \<longrightarrow>
                 Format.width (content_format
                     (snd (Column_format H (fold (\<lambda>vs c. snd (Column_format H c vs)) vss c) vs)))
                   = str_nat (Max (set (map length rs))) \<and>
                 str_nat (Max (set (map length rs))) \<noteq> [] \<and>
                 precision (content_format
                     (snd (Column_format H (fold (\<lambda>vs c. snd (Column_format H c vs)) vss c) vs)))
                   = []))"
proof -
  define c' where "c' = fold (\<lambda>vs c. snd (Column_format H c vs)) vss c"
  from fold_Column_format_invariant [of c H vss] Column_init_fields [OF assms]
  have p: "precision (content_format c') = width c" and w: "width c' = width c"
    and e: "width c \<noteq> [] \<longrightarrow> Format.width (content_format c') = width c"
    by (auto simp: c'_def)
  have n: "vss = [] \<longrightarrow> Format.width (content_format c') = width c"
    using Column_init_fields [OF assms] by (auto simp: c'_def)
  have m: "Format.width (content_format (snd (Column_format H c' vs)))
             = str_nat (Max (set (map length rs))) \<and>
           str_nat (Max (set (map length rs))) \<noteq> [] \<and>
           precision (content_format (snd (Column_format H c' vs))) = []"
    if "width c = []" "vs \<noteq> []" "map_result (Format_format H (content_format c')) vs = Inr rs"
    for vs rs
  proof -
    from that w have "content_width H c' vs = Inr (str_nat (Max (set (map length rs))))"
      by (intro content_width_measured) simp_all
    from Column_format_width_assigned [OF this] p that(1) show ?thesis
      by (simp add: str_nat_nonempty)
  qed
  from p e n m show ?thesis unfolding c'_def by blast
qed

text \<open>
  C5, instances: \<^verbatim>\<open>Column("{:3}", HRule.NONE)\<close> after two calls of \<^verbatim>\<open>format\<close>, and
  \<^verbatim>\<open>Column("{}", HRule.NONE)\<close> with a call of \<^verbatim>\<open>format\<close> on two values.
\<close>

theorem Column_precision_invariant_witness:
  "Column_init ''{:3}'' NONE ''+-+'' = Inr fixed_column \<and> width fixed_column = ''3'' \<and>
   precision (content_format
     (fold (\<lambda>vs c. snd (Column_format py_host c vs)) [[''abcdef''], [''a'']] fixed_column)) = ''3'' \<and>
   Format.width (content_format
     (fold (\<lambda>vs c. snd (Column_format py_host c vs)) [[''abcdef''], [''a'']] fixed_column)) = ''3'' \<and>
   Column_init ''{}'' NONE ''+-+'' = Inr (plain_column NONE) \<and> width (plain_column NONE) = [] \<and>
   [''abc'', ''a''] \<noteq> [] \<and>
   map_result (Format_format py_host (content_format (plain_column NONE))) [''abc'', ''a'']
     = Inr [''abc'', ''a''] \<and>
   str_nat (Max (set (map length [''abc'', ''a'']))) = ''3'' \<and>
   Format.width (content_format (snd (Column_format py_host (plain_column NONE) [''abc'', ''a''])))
     = ''3'' \<and>
   precision (content_format (snd (Column_format py_host (plain_column NONE) [''abc'', ''a''])))
     = []"
proof -
  have w: "width fixed_column = ''3''" by (simp add: fixed_column_def)
  have v: "width (plain_column NONE) = []" by (simp add: plain_column_def)
  have r: "map_result (Format_format py_host (content_format (plain_column NONE))) [''abc'', ''a'']
     = Inr [''abc'', ''a'']"
    by code_simp
  have s: "str_nat (Max (set (map length [''abc'', ''a'']))) = ''3''"
    by code_simp
  have a: "precision (content_format
     (fold (\<lambda>vs c. snd (Column_format py_host c vs)) [[''abcdef''], [''a'']] fixed_column)) = ''3'' \<and>
   Format.width (content_format
     (fold (\<lambda>vs c. snd (Column_format py_host c vs)) [[''abcdef''], [''a'']] fixed_column)) = ''3''"
    using Column_precision_invariant [OF Column_init_fixed, of py_host "[[''abcdef''], [''a'']]"] w
    by simp
  have b: "Format.width (content_format (snd (Column_format py_host (plain_column NONE) [''abc'', ''a''])))
     = ''3'' \<and>
   precision (content_format (snd (Column_format py_host (plain_column NONE) [''abc'', ''a''])))
     = []"
    using Column_precision_invariant [OF Column_init_plain, of py_host "[]" NONE] v r s
    by simp
  from a b w v r s Column_init_fixed Column_init_plain show ?thesis by simp
qed

text \<open>
  C5, as the claim states it, fails: after \<^verbatim>\<open>Column("{}").format(["abc"])\<close> the width of the
  content spec is \<^verbatim>\<open>"3"\<close> and its precision is still unset.
\<close>

theorem Column_precision_not_width:
  "Column_init ''{}'' NONE ''+-+'' = Inr (plain_column NONE) \<and>
   snd (Column_format py_host (plain_column NONE) [''abc'']) = sized_column ''3'' \<and>
   Format.width (content_format (sized_column ''3'')) = ''3'' \<and>
   precision (content_format (sized_column ''3'')) = []"
proof -
  have "snd (Column_format py_host (plain_column NONE) [''abc'']) = sized_column ''3''"
    by code_simp
  then show ?thesis
    by (simp add: Column_init_plain sized_column_def empty_format_def)
qed

text \<open>
  The first call: for a Column constructed from a format string without explicit width and
  a non-empty sequence of values, after the first call of \<^verbatim>\<open>Column.format\<close> the width of the
  content spec is the decimal numeral of the maximum, over the values, of the length of the
  value rendered under the content spec with width and precision unset.
\<close>

lemma Column_format_first_width:
  assumes "Column_init format hr hrule_format = Inr c" and "width c = []" and "vs \<noteq> []"
    and "map_result (Format_format H ((content_format c)\<lparr>Format.width := [], precision := []\<rparr>)) vs
           = Inr rs"
  shows "Format.width (content_format (snd (Column_format H c vs)))
           = str_nat (Max (set (map length rs))) \<and>
         precision (content_format (snd (Column_format H c vs))) = []"
proof -
  from Column_init_fields [OF assms(1)] assms(2)
  have cf: "(content_format c)\<lparr>Format.width := [], precision := []\<rparr> = content_format c"
    by simp
  from assms(4) have "length rs = length vs" by (rule map_result_length)
  with assms(3) have "map length rs \<noteq> []" by auto
  then have "max_list (map length rs) = Inr (Max (set (map length rs)))"
    by (rule max_list_Max)
  with assms(2,4) cf
  have "content_width H c vs = Inr (str_nat (Max (set (map length rs))))"
    by (simp add: content_width_def)
  then show ?thesis
    using Column_init_fields [OF assms(1)] assms(2)
    by (auto simp: Column_format_def Let_def split: sum.splits)
qed

text \<open>An instance of the first call: \<^verbatim>\<open>Column("{}", HRule.NONE)\<close> and two values.\<close>

lemma Column_format_first_width_example:
  "Column_init ''{}'' NONE ''+-+'' = Inr (plain_column NONE) \<and> width (plain_column NONE) = [] \<and>
   map_result (Format_format py_host
       ((content_format (plain_column NONE))\<lparr>Format.width := [], precision := []\<rparr>))
     [''abcde'', ''ab''] = Inr [''abcde'', ''ab''] \<and>
   Format.width (content_format (snd (Column_format py_host (plain_column NONE) [''abcde'', ''ab''])))
     = str_nat (Max (set (map length [''abcde'', ''ab''])))"
proof -
  have w: "width (plain_column NONE) = []" by (simp add: plain_column_def)
  have ne: "[''abcde'', ''ab''] \<noteq> []" by simp
  have r: "map_result (Format_format py_host
       ((content_format (plain_column NONE))\<lparr>Format.width := [], precision := []\<rparr>))
     [''abcde'', ''ab''] = Inr [''abcde'', ''ab'']"
    by code_simp
  from Column_format_first_width [OF Column_init_plain w ne r] Column_init_plain w r
  show ?thesis by blast
qed

text \<open>
  C1, where the code leaves the claim: a Column without explicit width that is used again
  does not adapt to shorter values. After \<^verbatim>\<open>Column("{}").format(["abcde"])\<close> the width of the
  content spec is \<^verbatim>\<open>"5"\<close>; \<^verbatim>\<open>format(["ab"])\<close> then measures \<^verbatim>\<open>"ab"\<close> with the content spec as the
  first call left it, padded to five characters, so the width stays \<^verbatim>\<open>"5"\<close> and the line is
  \<^verbatim>\<open>"ab   "\<close>, where the length of \<^verbatim>\<open>"ab"\<close> rendered with width and precision unset is 2.
\<close>

theorem Column_format_reused_width:
  "Column_init ''{}'' NONE ''+-+'' = Inr (plain_column NONE) \<and>
   Column_format py_host (plain_column NONE) [''abcde''] = (Inr [''abcde''], sized_column ''5'') \<and>
   Column_format py_host (sized_column ''5'') [''ab''] = (Inr [''ab   ''], sized_column ''5'') \<and>
   Format.width (content_format (sized_column ''5'')) = ''5'' \<and>
   map_result (Format_format py_host
       ((content_format (sized_column ''5''))\<lparr>Format.width := [], precision := []\<rparr>)) [''ab'']
     = Inr [''ab''] \<and>
   str_nat (Max (set (map length [''ab'']))) = ''2''"
proof -
  have "Column_format py_host (plain_column NONE) [''abcde''] = (Inr [''abcde''], sized_column ''5'')"
    by code_simp
  moreover have "Column_format py_host (sized_column ''5'') [''ab'']
      = (Inr [''ab   ''], sized_column ''5'')"
    by code_simp
  moreover have "Format.width (content_format (sized_column ''5'')) = ''5''"
    by code_simp
  moreover have "map_result (Format_format py_host
       ((content_format (sized_column ''5''))\<lparr>Format.width := [], precision := []\<rparr>)) [''ab'']
     = Inr [''ab'']"
    by code_simp
  moreover have "str_nat (Max (set (map length [''ab'']))) = ''2''"
    by code_simp
  ultimately show ?thesis using Column_init_plain by blast
qed

subsection \<open>Table\<close>

text \<open>
  C9: the construction of a Table raises the \<^verbatim>\<open>ValueError\<close> of the length mismatch when a
  list of headers is given that is not empty and whose length is not the number of column
  format strings. (An empty list of headers is no headers, as \<^verbatim>\<open>None\<close> is.)
\<close>

theorem Table_init_headers_mismatch:
  assumes "hs \<noteq> []" and "length column_formats \<noteq> length hs"
  shows "Table_init column_formats (Some hs) hr hrule_format = Inl HeadersLengthMismatch"
  using assms by (simp add: Table_init_def)

text \<open>C9, the instance of the claim: three column formats and two headers.\<close>

theorem Table_init_headers_mismatch_witness:
  "[''a'', ''b''] \<noteq> [] \<and> length [''{}'', ''{}'', ''{}''] \<noteq> length [''a'', ''b''] \<and>
   Table_init [''{}'', ''{}'', ''{}''] (Some [''a'', ''b'']) FRAME_HEADER ''+-+''
     = Inl HeadersLengthMismatch"
proof -
  have n: "[''a'', ''b''] \<noteq> []" by simp
  have l: "length [''{}'', ''{}'', ''{}''] \<noteq> length [''a'', ''b'']" by simp
  from n l Table_init_headers_mismatch [OF n l, of FRAME_HEADER "''+-+''"] show ?thesis by blast
qed

lemma Table_init_empty_headers:
  "Table_init [''{}'', ''{}''] (Some []) NONE ''+-+'' = Inr plain_table"
  by code_simp

lemma zip_star_transpose_rows:
  assumes "\<forall>r\<in>set rows. length r = n"
  shows "zip_star rows = transpose_rows rows"
  using assms
proof (induction n arbitrary: rows)
  case 0
  then show ?case
    by (subst zip_star.simps) (auto simp: transpose_rows_def list_ex_iff split: list.splits)
next
  case (Suc n)
  show ?case
  proof (cases rows)
    case Nil
    then show ?thesis by (simp add: zip_star.simps [of "[]"] transpose_rows_def)
  next
    case (Cons r rs)
    from Suc.prems have ne: "\<forall>x\<in>set rows. x \<noteq> []" by auto
    from Suc.prems have "\<forall>x\<in>set (map tl rows). length x = n" by auto
    then have IH: "zip_star (map tl rows) = transpose_rows (map tl rows)" by (rule Suc.IH)
    have hd: "map hd rows = map (\<lambda>row. row ! 0) rows"
      using ne by (auto simp: hd_conv_nth)
    have tl: "map (\<lambda>row. row ! j) (map tl rows) = map (\<lambda>row. row ! Suc j) rows" for j
    proof -
      have "tl x ! j = x ! Suc j" if "x \<in> set rows" for x
      proof (cases x)
        case Nil
        with that ne show ?thesis by blast
      next
        case (Cons y ys)
        then show ?thesis by simp
      qed
      then show ?thesis by simp
    qed
    have len: "length r = Suc n" using Suc.prems Cons by simp
    have "zip_star rows = map hd rows # zip_star (map tl rows)"
      using ne Cons by (subst zip_star.simps) (auto simp: list_ex_iff)
    also have "\<dots> = map (\<lambda>row. row ! 0) rows # map (\<lambda>j. map (\<lambda>row. row ! Suc j) rows) [0..<n]"
    proof -
      have "transpose_rows (map tl rows) = map (\<lambda>j. map (\<lambda>row. row ! j) (map tl rows)) [0..<n]"
        using Cons len by (simp add: transpose_rows_def)
      then show ?thesis by (simp only: IH hd tl)
    qed
    also have "\<dots> = map (\<lambda>j. map (\<lambda>row. row ! j) rows) [0..<Suc n]"
      by (simp only: upt_conv_Cons [OF zero_less_Suc] list.map map_Suc_upt [symmetric] map_map o_def)
    also have "\<dots> = transpose_rows rows"
      using Cons len by (simp add: transpose_rows_def)
    finally show ?thesis .
  qed
qed

text \<open>
  C7: for rows that all have one value per column, \<^verbatim>\<open>Table.format_rows(rows)\<close> returns what
  \<^verbatim>\<open>Table.format\<close> returns for the transpose of the rows, and leaves the Table in the same
  state.
\<close>

theorem Table_format_rows_transpose:
  assumes "\<forall>r\<in>set rows. length r = length (columns T)"
  shows "Table_format_rows H T rows = Table_format H T (transpose_rows rows)"
  using zip_star_transpose_rows [OF assms] by (simp add: Table_format_rows_def)

text \<open>C7, an instance: two rows of two values.\<close>

theorem Table_format_rows_transpose_witness:
  "length [''a'', ''b''] = length (columns plain_table) \<and>
   length [''c'', ''d''] = length (columns plain_table) \<and>
   transpose_rows [[''a'', ''b''], [''c'', ''d'']] = [[''a'', ''c''], [''b'', ''d'']] \<and>
   fst (Table_format py_host plain_table [[''a'', ''c''], [''b'', ''d'']])
     = Inr (''ab'' @ [newline] @ ''cd'') \<and>
   Table_format_rows py_host plain_table [[''a'', ''b''], [''c'', ''d'']]
     = Table_format py_host plain_table [[''a'', ''c''], [''b'', ''d'']]"
proof -
  have l: "\<forall>r\<in>set [[''a'', ''b''], [''c'', ''d'']]. length r = length (columns plain_table)"
    by (simp add: plain_table_def)
  have t: "transpose_rows [[''a'', ''b''], [''c'', ''d'']] = [[''a'', ''c''], [''b'', ''d'']]"
    by code_simp
  have f: "fst (Table_format py_host plain_table [[''a'', ''c''], [''b'', ''d'']])
     = Inr (''ab'' @ [newline] @ ''cd'')"
    by code_simp
  from Table_format_rows_transpose [OF l, of py_host] l t f show ?thesis by simp
qed

text \<open>
  The plain \<^verbatim>\<open>zip\<close> of the rows raises nothing: it gives as many columns as the shortest
  row has values, each with one value per row.
\<close>

lemma zip_star_length_cols: "col \<in> set (zip_star rows) \<Longrightarrow> length col = length rows"
proof (induction rows arbitrary: col rule: zip_star.induct)
  case (1 xss)
  then show ?case
    by (subst (asm) (2) zip_star.simps) (auto split: if_splits)
qed

lemma zip_star_length:
  "rows \<noteq> [] \<Longrightarrow> length (zip_star rows) = Min (length ` set rows)"
proof (induction rows rule: zip_star.induct)
  case (1 xss)
  show ?case
  proof (cases "list_ex (\<lambda>xs. xs = []) xss")
    case True
    then have "0 \<in> length ` set xss" by (auto simp: list_ex_iff image_iff)
    then have "Min (length ` set xss) = 0"
      by (metis List.finite_set Min_le finite_imageI le_zero_eq)
    with True show ?thesis by (subst zip_star.simps) simp
  next
    case False
    then have ne: "\<forall>xs\<in>set xss. xs \<noteq> []" by (auto simp: list_ex_iff)
    have fin: "finite (length ` set xss)" "length ` set xss \<noteq> {}"
      using 1(2) by auto
    have "length (zip_star xss) = Suc (length (zip_star (map tl xss)))"
      using False 1(2) by (subst zip_star.simps) simp
    also have "\<dots> = Suc (Min (length ` set (map tl xss)))"
      using 1(1) False 1(2) by simp
    also have "length ` set (map tl xss) = (\<lambda>n. n - 1) ` (length ` set xss)"
      by (auto simp: image_iff)
    also have "Min ((\<lambda>n. n - 1) ` (length ` set xss)) = Min (length ` set xss) - 1"
      by (rule mono_Min_commute [symmetric, OF _ fin]) (auto simp: mono_def)
    also have "Suc (Min (length ` set xss) - 1) = Min (length ` set xss)"
    proof -
      have "Min (length ` set xss) > 0"
        using ne by (simp add: Min_gr_iff [OF fin])
      then show ?thesis by simp
    qed
    finally show ?thesis .
  qed
qed

text \<open>
  C6, where the code leaves the claim: \<^verbatim>\<open>Table.format_rows\<close> of a row of two values and a row
  of one value raises nothing; the plain \<^verbatim>\<open>zip\<close> of the rows drops the second value of the
  first row, and the text has one column.
\<close>

theorem Table_format_rows_ragged:
  "Table_init [''{}'', ''{}''] None NONE ''+-+'' = Inr plain_table \<and>
   zip_star [[''a'', ''b''], [''c'']] = [[''a'', ''c'']] \<and>
   fst (Table_format_rows py_host plain_table [[''a'', ''b''], [''c'']])
     = Inr (''a'' @ [newline] @ ''c'')"
  by code_simp

end
